theory Spec2Isabelle
  imports Complex_Main
begin

section \<open>Errors and numeric primitives\<close>

text \<open>
  The conditions a call can end in: Python's \<open>NotImplementedError\<close>,
  \<open>ValueError\<close> and \<open>OverflowError\<close>, and the two conditions of the
  specification's taxonomy that the utility routines of \<open>cryojax.utils\<close> may raise.
\<close>

datatype error =
  NotImplementedError | ValueError | OverflowError | ShapeMismatch | UnsupportedConfiguration

text \<open>
  \<open>jnp.rint\<close> (and Python's \<open>round\<close>): the nearest integer, a tie going to the
  even neighbour.
\<close>

definition rint :: "real \<Rightarrow> int" where
  "rint x =
     (let f = \<lfloor>x\<rfloor>; d = x - of_int f
      in if d < 1 / 2 then f
         else if 1 / 2 < d then f + 1
         else if even f then f else f + 1)"

subsection \<open>Python numbers\<close>

text \<open>
  A Python float is an IEEE binary64 value: a real number, an infinity or a NaN (the
  sign of a zero is not kept). \<open>double_round\<close> rounds a real to the nearest value with
  a 53-bit significand, a tie going to the even significand; below \<open>2 ^ - 1022\<close> the
  spacing stays \<open>2 ^ - 1074\<close>. The exponent of a positive \<open>y\<close> is the greatest
  \<open>e\<close> with \<open>2 ^ e \<le> y\<close>, kept between - 1022 and 1024 and found by counting up
  (\<open>exponent_from\<close>); from \<open>2 ^ 1024\<close> on the rounded value overflows, which
  \<open>to_double\<close> turns into an infinity.
\<close>

datatype pyfloat = Finite real | PosInf | NegInf | NaN

fun exponent_from :: "int \<Rightarrow> nat \<Rightarrow> real \<Rightarrow> int" where
  "exponent_from e 0 y = e"
| "exponent_from e (Suc n) y =
     (if 2 powi (e + 1) \<le> y then exponent_from (e + 1) n y else e)"

definition double_round :: "real \<Rightarrow> real" where
  "double_round x =
     (if x = 0 then 0
      else (let e = exponent_from (- 1022) 2046 \<bar>x\<bar>; q = 2 powi (e - 52)
            in of_int (rint (x / q)) * q))"

definition to_double :: "real \<Rightarrow> pyfloat" where
  "to_double x =
     (let r = double_round x
      in if 2 ^ 1024 \<le> r then PosInf else if r \<le> - (2 ^ 1024) then NegInf else Finite r)"

text \<open>The product of two floats.\<close>

fun float_mul :: "pyfloat \<Rightarrow> pyfloat \<Rightarrow> pyfloat" where
  "float_mul (Finite a) (Finite b) = to_double (a * b)"
| "float_mul NaN y = NaN"
| "float_mul x NaN = NaN"
| "float_mul (Finite a) PosInf = (if a = 0 then NaN else if 0 < a then PosInf else NegInf)"
| "float_mul (Finite a) NegInf = (if a = 0 then NaN else if 0 < a then NegInf else PosInf)"
| "float_mul PosInf (Finite b) = (if b = 0 then NaN else if 0 < b then PosInf else NegInf)"
| "float_mul NegInf (Finite b) = (if b = 0 then NaN else if 0 < b then NegInf else PosInf)"
| "float_mul PosInf PosInf = PosInf"
| "float_mul PosInf NegInf = NegInf"
| "float_mul NegInf PosInf = NegInf"
| "float_mul NegInf NegInf = PosInf"

text \<open>
  A number is an \<open>int\<close> or a \<open>float\<close>: the field \<open>pad_scale\<close> is annotated
  \<open>float\<close> and its default is the \<open>int\<close> 1. In \<open>s * pad_scale\<close> with \<open>s\<close> an
  \<open>int\<close>, an \<open>int\<close> factor gives the exact product; a \<open>float\<close> factor has
  \<open>s\<close> converted to a float first, which raises \<open>OverflowError\<close> when \<open>s\<close> is too
  large for one. \<open>int()\<close> of a float truncates toward zero and raises
  \<open>OverflowError\<close> on an infinity, \<open>ValueError\<close> on a NaN.
\<close>

datatype pynum = PyInt int | PyFloat pyfloat

definition float_of_int :: "int \<Rightarrow> error + pyfloat" where
  "float_of_int n =
     (case to_double (of_int n) of Finite r \<Rightarrow> Inr (Finite r) | _ \<Rightarrow> Inl OverflowError)"

definition py_mul :: "int \<Rightarrow> pynum \<Rightarrow> error + pynum" where
  "py_mul s k =
     (case k of
        PyInt m \<Rightarrow> Inr (PyInt (s * m))
      | PyFloat f \<Rightarrow>
          (case float_of_int s of Inl e \<Rightarrow> Inl e | Inr sf \<Rightarrow> Inr (PyFloat (float_mul sf f))))"

definition py_int :: "pynum \<Rightarrow> error + int" where
  "py_int v =
     (case v of
        PyInt n \<Rightarrow> Inr n
      | PyFloat (Finite x) \<Rightarrow> Inr (if x < 0 then \<lceil>x\<rceil> else \<lfloor>x\<rfloor>)
      | PyFloat NaN \<Rightarrow> Inl ValueError
      | PyFloat _ \<Rightarrow> Inl OverflowError)"

section \<open>Image configuration\<close>

record 'g ImageConfig =
  shape :: "int \<times> int"
  pixel_size :: real
  padded_shape :: "int \<times> int"
  freqs :: 'g
  padded_freqs :: 'g
  coords :: 'g
  padded_coords :: 'g
  pad_scale :: pynum

record 'g FourierSliceScattering = "'g ImageConfig" +
  order :: int


record 'g GaussianScattering = "'g ImageConfig" +
  scale :: real

text \<open>
  \<open>ImageConfig.__post_init__\<close>, run by the dataclass constructor once the
  fields \<open>shape\<close>, \<open>pixel_size\<close>, \<open>pad_scale\<close> (and those of a subclass, the
  argument \<open>rest\<close>) are set. The padded shape is \<open>int(s * pad_scale)\<close> for the
  two entries of the shape in turn. The parameter \<open>ff\<close> is the grid routine
  \<open>fftfreqs\<close> of \<open>cryojax.utils\<close> with the conversion of its result to an array:
  it takes the shape, the pixel size and whether \<open>real=True\<close> is passed, and an
  exception it raises ends the construction.
\<close>

definition ImageConfig_post_init ::
  "(int \<times> int \<Rightarrow> real \<Rightarrow> bool \<Rightarrow> error + 'g) \<Rightarrow> int \<times> int \<Rightarrow> real \<Rightarrow> pynum \<Rightarrow> 'm
     \<Rightarrow> error + ('g, 'm) ImageConfig_scheme" where
  "ImageConfig_post_init ff shp ps pscale rest =
     (case py_mul (fst shp) pscale of Inl e \<Rightarrow> Inl e | Inr v1 \<Rightarrow>
     (case py_int v1 of Inl e \<Rightarrow> Inl e | Inr d1 \<Rightarrow>
     (case py_mul (snd shp) pscale of Inl e \<Rightarrow> Inl e | Inr v2 \<Rightarrow>
     (case py_int v2 of Inl e \<Rightarrow> Inl e | Inr d2 \<Rightarrow>
     (case ff shp ps False of Inl e \<Rightarrow> Inl e | Inr fr \<Rightarrow>
     (case ff (d1, d2) ps False of Inl e \<Rightarrow> Inl e | Inr pfr \<Rightarrow>
     (case ff shp ps True of Inl e \<Rightarrow> Inl e | Inr co \<Rightarrow>
     (case ff (d1, d2) ps True of Inl e \<Rightarrow> Inl e | Inr pco \<Rightarrow>
        Inr \<lparr>shape = shp, pixel_size = ps, padded_shape = (d1, d2),
             freqs = fr, padded_freqs = pfr, coords = co, padded_coords = pco,
             pad_scale = pscale, \<dots> = rest\<rparr>))))))))"


definition FourierSliceScattering_init ::
  "(int \<times> int \<Rightarrow> real \<Rightarrow> bool \<Rightarrow> error + 'g) \<Rightarrow> int \<times> int \<Rightarrow> real \<Rightarrow> pynum \<Rightarrow> int
     \<Rightarrow> error + 'g FourierSliceScattering" where
  "FourierSliceScattering_init ff shp ps pscale ord =
     ImageConfig_post_init ff shp ps pscale (FourierSliceScattering.fields ord)"


definition GaussianScattering_init ::
  "(int \<times> int \<Rightarrow> real \<Rightarrow> bool \<Rightarrow> error + 'g) \<Rightarrow> int \<times> int \<Rightarrow> real \<Rightarrow> pynum \<Rightarrow> real
     \<Rightarrow> error + 'g GaussianScattering" where
  "GaussianScattering_init ff shp ps pscale sc =
     ImageConfig_post_init ff shp ps pscale (GaussianScattering.fields sc)"


text \<open>
  \<open>FourierSliceScattering.scatter(self, *args, **kwargs)\<close>: the body is the single
  statement \<open>raise NotImplementedError\<close>; what follows it in the source is commented
  out. The method reads no argument and assigns nothing.
\<close>

definition FourierSliceScattering_scatter ::
  "'g FourierSliceScattering \<Rightarrow> 'v list \<Rightarrow> (string \<times> 'v) list \<Rightarrow> error + 'p" where
  "FourierSliceScattering_scatter self args kwargs = Inl NotImplementedError"

section \<open>Projection of a point cloud\<close>

text \<open>
  A coordinate array of shape \<open>(N, 3)\<close> is a list of rows, a box size of shape
  \<open>(3,)\<close> is one row. The slices \<open>coordinates[:, :2]\<close> and \<open>box_size[:2]\<close>
  keep the first two components of every row.
\<close>

type_synonym vec2 = "real \<times> real"
type_synonym vec3 = "real \<times> real \<times> real"

definition first_two :: "vec3 \<Rightarrow> vec2" where
  "first_two v = (fst v, fst (snd v))"

text \<open>
  \<open>project_with_nufft\<close> and \<open>project_with_gaussians\<close>. The routines \<open>bound\<close>,
  \<open>nufft\<close>, \<open>integrate_gaussians\<close> and \<open>fft\<close> are imported from
  \<open>cryojax.utils\<close>; here they are the parameters \<open>bound_u\<close>, \<open>nufft_u\<close>,
  \<open>integrate_gaussians_u\<close> and \<open>fft_u\<close>, and an exception one of them raises
  is passed on.
\<close>

definition project_with_nufft ::
  "('d list \<Rightarrow> vec2 list \<Rightarrow> vec2 \<Rightarrow> error + 'd list)
     \<Rightarrow> ('d list \<Rightarrow> vec2 list \<Rightarrow> vec2 \<Rightarrow> int \<times> int \<Rightarrow> real \<Rightarrow> error + 'p)
     \<Rightarrow> 'd list \<Rightarrow> vec3 list \<Rightarrow> vec3 \<Rightarrow> int \<times> int \<Rightarrow> real \<Rightarrow> error + 'p" where
  "project_with_nufft bound_u nufft_u density coordinates box_size shp tol =
     (case bound_u density (map first_two coordinates) (first_two box_size) of
        Inl e \<Rightarrow> Inl e
      | Inr masked \<Rightarrow>
          nufft_u masked (map first_two coordinates) (first_two box_size) shp tol)"

definition project_with_gaussians ::
  "('d list \<Rightarrow> vec2 list \<Rightarrow> vec2 \<Rightarrow> error + 'd list)
     \<Rightarrow> ('d list \<Rightarrow> vec2 list \<Rightarrow> real \<Rightarrow> int \<times> int \<Rightarrow> real \<Rightarrow> error + 'i)
     \<Rightarrow> ('i \<Rightarrow> error + 'p)
     \<Rightarrow> 'd list \<Rightarrow> vec3 list \<Rightarrow> vec3 \<Rightarrow> int \<times> int \<Rightarrow> real \<Rightarrow> real \<Rightarrow> error + 'p" where
  "project_with_gaussians bound_u integrate_gaussians_u fft_u
       density coordinates box_size shp ps sc =
     (case bound_u density (map first_two coordinates) (first_two box_size) of
        Inl e \<Rightarrow> Inl e
      | Inr masked \<Rightarrow>
          (case integrate_gaussians_u masked (map first_two coordinates) sc shp ps of
             Inl e \<Rightarrow> Inl e
           | Inr projection \<Rightarrow> fft_u projection))"

subsection \<open>The utility routines, from the specification\<close>

text \<open>
  Modelled from the spec: \<open>bound\<close> of \<open>cryojax.utils\<close> is missing. The
  specification has it restrict (bounds-mask) the points to those whose projected 2D
  coordinate lies within the target box, and has a length mismatch between density and
  coordinates fail with ShapeMismatch. The callers above pass the unmasked coordinates
  on together with the masked density, so the mask keeps the length: a point outside
  the box keeps its place with density zero. Which points lie within the box is the
  parameter \<open>in_box\<close>.
\<close>

definition bound ::
  "(vec2 \<Rightarrow> vec2 \<Rightarrow> bool) \<Rightarrow> ('a::zero) list \<Rightarrow> vec2 list \<Rightarrow> vec2 \<Rightarrow> error + 'a list" where
  "bound in_box density cs box =
     (if length density \<noteq> length cs then Inl ShapeMismatch
      else Inr (map2 (\<lambda>d c. if in_box c box then d else 0) density cs))"

text \<open>
  Modelled from the spec: \<open>nufft\<close> of \<open>cryojax.utils\<close> is missing. The
  specification has it apply a non-uniform discrete Fourier transform at the points' 2D
  coordinates onto a uniform grid of the given shape, to the precision \<open>eps\<close>: every
  output pixel is the sum over the points of the point's amplitude times a kernel value.
  The kernel (sign, scaling and the approximation to the precision) is the parameter
  \<open>kern\<close>.
\<close>

definition nufft ::
  "(vec2 \<Rightarrow> vec2 \<Rightarrow> int \<times> int \<Rightarrow> real \<Rightarrow> nat \<times> nat \<Rightarrow> complex)
     \<Rightarrow> complex list \<Rightarrow> vec2 list \<Rightarrow> vec2 \<Rightarrow> int \<times> int \<Rightarrow> real
     \<Rightarrow> error + complex list list" where
  "nufft kern masked cs box shp tol =
     (if length masked \<noteq> length cs then Inl ShapeMismatch
      else Inr [[sum_list (map2 (\<lambda>d c. d * kern c box shp tol (k1, k2)) masked cs).
                   k2 \<leftarrow> [0..<nat (snd shp)]]. k1 \<leftarrow> [0..<nat (fst shp)]])"

text \<open>
  Modelled from the spec: \<open>integrate_gaussians\<close> of \<open>cryojax.utils\<close> is missing.
  The specification has it compute, per output pixel, the closed-form integral of each
  point's Gaussian over that pixel's area, summed over all points with the point's
  density as weight. The integral of a unit Gaussian over a pixel is the parameter
  \<open>pixel_integral\<close>.
\<close>

definition integrate_gaussians ::
  "(vec2 \<Rightarrow> real \<Rightarrow> int \<times> int \<Rightarrow> real \<Rightarrow> nat \<times> nat \<Rightarrow> real)
     \<Rightarrow> real list \<Rightarrow> vec2 list \<Rightarrow> real \<Rightarrow> int \<times> int \<Rightarrow> real
     \<Rightarrow> error + real list list" where
  "integrate_gaussians pixel_integral weights cs sc shp ps =
     (if length weights \<noteq> length cs then Inl ShapeMismatch
      else Inr [[sum_list (map2 (\<lambda>w c. w * pixel_integral c sc shp ps (k1, k2)) weights cs).
                   k2 \<leftarrow> [0..<nat (snd shp)]]. k1 \<leftarrow> [0..<nat (fst shp)]])"

text \<open>
  Modelled from the spec: \<open>fft\<close> of \<open>cryojax.utils\<close> is missing. The
  specification has it forward-transform the real-space image to Fourier space: a
  discrete Fourier transform, every output pixel the sum over the input pixels of the
  pixel's value times a twiddle factor. The factor (sign, normalisation and shift
  convention) is the parameter \<open>twiddle\<close>.
\<close>

definition fft ::
  "(nat \<times> nat \<Rightarrow> nat \<times> nat \<Rightarrow> nat \<times> nat \<Rightarrow> complex)
     \<Rightarrow> real list list \<Rightarrow> error + complex list list" where
  "fft twiddle img =
     (let n1 = length img; n2 = (case img of [] \<Rightarrow> 0 | r # _ \<Rightarrow> length r)
      in Inr [[sum_list [sum_list [of_real (img ! a ! b) * twiddle (n1, n2) (a, b) (k1, k2).
                                     b \<leftarrow> [0..<n2]]. a \<leftarrow> [0..<n1]].
                 k2 \<leftarrow> [0..<n2]]. k1 \<leftarrow> [0..<n1]])"

subsection \<open>Binning\<close>

text \<open>
  An integer array has entries of a fixed width \<open>w\<close>: 32 bits, or 64 where JAX's
  64-bit mode is enabled. Arithmetic on it wraps around (two's complement), and
  \<open>astype(int)\<close> of an integral float value saturates at the ends of the range.
\<close>

definition int_min :: "nat \<Rightarrow> int" where
  "int_min w = - (2 ^ (w - 1))"

definition int_max :: "nat \<Rightarrow> int" where
  "int_max w = 2 ^ (w - 1) - 1"

definition wrap :: "nat \<Rightarrow> int \<Rightarrow> int" where
  "wrap w i = (i + 2 ^ (w - 1)) mod 2 ^ w - 2 ^ (w - 1)"

definition astype_int :: "nat \<Rightarrow> int \<Rightarrow> int" where
  "astype_int w i = min (max i (int_min w)) (int_max w)"

text \<open>
  A Python integer that enters the arithmetic of an integer array is converted to the
  array's type first, and JAX raises \<open>OverflowError\<close> when it does not fit.
\<close>

definition fits :: "nat \<Rightarrow> int \<Rightarrow> bool" where
  "fits w v \<longleftrightarrow> int_min w \<le> v \<and> v \<le> int_max w"

text \<open>
  \<open>jnp.clip(x, lo, hi)\<close>, and \<open>jnp.ravel_multi_index\<close> in mode \<open>clip\<close> on a pair
  of index arrays: every index is clipped to its axis and the pair is flattened in row
  order, in the arithmetic of the index arrays.
\<close>

definition clip :: "int \<Rightarrow> int \<Rightarrow> int \<Rightarrow> int" where
  "clip x lo hi = min (max x lo) hi"

definition ravel_multi_index ::
  "nat \<Rightarrow> int list \<times> int list \<Rightarrow> int \<times> int \<Rightarrow> int list" where
  "ravel_multi_index w multi_index dims =
     map2 (\<lambda>i j. wrap w (wrap w (clip i 0 (fst dims - 1) * snd dims)
                            + clip j 0 (snd dims - 1)))
       (fst multi_index) (snd multi_index)"

text \<open>
  \<open>jnp.bincount(x, weights, length)\<close>: an array of \<open>length\<close> zeros to which every
  weight is added at its index, a negative index counting as zero and an index beyond
  the array being dropped. Weights of another length than \<open>x\<close> are refused. The
  entries are floats of the weights' type: \<open>fadd\<close> is their (rounding) addition and
  \<open>fzero\<close> their zero. The library does not fix the order in which the additions are
  made; \<open>sched\<close> lists the positions of \<open>x\<close> in the order they are applied.
\<close>

definition bincount_add :: "('a \<Rightarrow> 'a \<Rightarrow> 'a) \<Rightarrow> 'a list \<Rightarrow> int \<times> 'a \<Rightarrow> 'a list" where
  "bincount_add fadd acc iw =
     (let i = max (fst iw) 0
      in if i < int (length acc) then acc[nat i := fadd (acc ! nat i) (snd iw)] else acc)"

definition bincount ::
  "('a \<Rightarrow> 'a \<Rightarrow> 'a) \<Rightarrow> 'a \<Rightarrow> nat list \<Rightarrow> int list \<Rightarrow> 'a list \<Rightarrow> int \<Rightarrow> error + 'a list" where
  "bincount fadd fzero sched x weights len =
     (if length x \<noteq> length weights \<or> len < 0 then Inl ValueError
      else Inr (foldl (bincount_add fadd) (replicate (nat len) fzero)
                  (map (\<lambda>j. (x ! j, weights ! j)) sched)))"

text \<open>
  \<open>reshape((N1, N2))\<close> of a flat array, in row order. It is called on an array of
  \<open>N1 * N2\<close> entries; a negative entry of the shape fails there.
\<close>

definition reshape :: "'a list \<Rightarrow> int \<times> int \<Rightarrow> error + 'a list list" where
  "reshape a newshape =
     (if fst newshape < 0 \<or> snd newshape < 0
         \<or> int (length a) \<noteq> fst newshape * snd newshape then Inl ValueError
      else Inr (map (\<lambda>r. take (nat (snd newshape)) (drop (r * nat (snd newshape)) a))
                  [0..<nat (fst newshape)]))"

text \<open>
  \<open>project_with_binning\<close>. Of the shape only the entries \<open>shape[0]\<close> and
  \<open>shape[1]\<close> are read. The coordinates are finite floats; \<open>jnp.rint\<close> of a float
  is exact. The Python integers that meet the index arrays are the two shifts
  \<open>N1 // 2\<close> and \<open>N2 // 2\<close> and, inside \<open>ravel_multi_index\<close>, the clipping
  bounds \<open>N1 - 1\<close> and \<open>N2 - 1\<close> and the stride \<open>N2\<close>.
\<close>

definition project_with_binning ::
  "nat \<Rightarrow> ('a \<Rightarrow> 'a \<Rightarrow> 'a) \<Rightarrow> 'a \<Rightarrow> nat list
     \<Rightarrow> 'a list \<Rightarrow> vec3 list \<Rightarrow> int \<times> int \<Rightarrow> error + 'a list list" where
  "project_with_binning w fadd fzero sched density cs shp =
     (let N1 = fst shp; N2 = snd shp
      in if \<not> (fits w (N1 div 2) \<and> fits w (N2 div 2) \<and> fits w (N1 - 1) \<and> fits w (N2 - 1)
               \<and> fits w N2) then Inl OverflowError else
      let rounded_coords =
            map (\<lambda>(x, y, z). (astype_int w (rint x), astype_int w (rint y),
                               astype_int w (rint z))) cs;
          x_coords = map (\<lambda>(x, y, z). wrap w (x + N1 div 2)) rounded_coords;
          y_coords = map (\<lambda>(x, y, z). wrap w (y + N2 div 2)) rounded_coords;
          flat_coords = ravel_multi_index w (x_coords, y_coords) (N1, N2)
      in case bincount fadd fzero sched flat_coords density (N1 * N2) of
           Inl e \<Rightarrow> Inl e
         | Inr counts \<Rightarrow> reshape counts (N1, N2))"

text \<open>
  The binning as the specification words it: a point goes to the pixel whose indices are
  its first two coordinates rounded half to even, shifted by \<open>N1 // 2\<close> and
  \<open>N2 // 2\<close> and clipped to the boundary; a pixel holds the sum of the densities of
  the points that go to it, added up from zero in the order \<open>sched\<close>.
\<close>

definition binning_spec_pixel :: "int \<times> int \<Rightarrow> vec3 \<Rightarrow> int \<times> int" where
  "binning_spec_pixel shp c =
     (clip (rint (fst c) + fst shp div 2) 0 (fst shp - 1),
      clip (rint (fst (snd c)) + snd shp div 2) 0 (snd shp - 1))"

definition binning_spec ::
  "('a \<Rightarrow> 'a \<Rightarrow> 'a) \<Rightarrow> 'a \<Rightarrow> nat list \<Rightarrow> 'a list \<Rightarrow> vec3 list \<Rightarrow> int \<times> int
     \<Rightarrow> int \<times> int \<Rightarrow> 'a" where
  "binning_spec fadd fzero sched density cs shp px =
     foldl fadd fzero
       (map (\<lambda>j. density ! j) (filter (\<lambda>j. binning_spec_pixel shp (cs ! j) = px) sched))"

text \<open>
  A coordinate row is in range when its first two coordinates, rounded and shifted, fit
  the integer type, so that neither the conversion saturates nor the shift wraps around.
\<close>

definition in_int_range :: "nat \<Rightarrow> int \<times> int \<Rightarrow> vec3 \<Rightarrow> bool" where
  "in_int_range w shp c \<longleftrightarrow>
     int_min w \<le> rint (fst c) \<and> rint (fst c) + fst shp div 2 \<le> int_max w
     \<and> int_min w \<le> rint (fst (snd c)) \<and> rint (fst (snd c)) + snd shp div 2 \<le> int_max w"

section \<open>Rounding to a double\<close>

lemma rint_ge: "of_int m \<le> y \<Longrightarrow> m \<le> rint y"
proof -
  assume "of_int m \<le> y"
  then have "m \<le> \<lfloor>y\<rfloor>" by (simp add: le_floor_iff)
  then show ?thesis by (simp add: rint_def Let_def)
qed

lemma rint_le: "y \<le> of_int m \<Longrightarrow> rint y \<le> m"
proof -
  assume le: "y \<le> of_int m"
  show ?thesis
  proof (cases "y = of_int \<lfloor>y\<rfloor>")
    case True
    then have "rint y = \<lfloor>y\<rfloor>" by (simp add: rint_def Let_def)
    moreover have "\<lfloor>y\<rfloor> \<le> m" using le by (simp add: floor_le_iff)
    ultimately show ?thesis by simp
  next
    case False
    have "of_int \<lfloor>y\<rfloor> \<le> y" by (rule of_int_floor_le)
    with False have "of_int \<lfloor>y\<rfloor> < y" by (metis less_le)
    with le have "of_int \<lfloor>y\<rfloor> < (of_int m :: real)" by linarith
    then have "\<lfloor>y\<rfloor> + 1 \<le> m" by simp
    moreover have "rint y \<le> \<lfloor>y\<rfloor> + 1" by (simp add: rint_def Let_def)
    ultimately show ?thesis by linarith
  qed
qed

lemma rint_of_int: "rint (of_int m) = m"
  by (simp add: rint_def Let_def)


lemma exponent_from_cap:
  "2 powi (e0 + int n) \<le> y \<Longrightarrow> exponent_from e0 n y = e0 + int n"
proof (induction n arbitrary: e0)
  case 0
  then show ?case by simp
next
  case (Suc n)
  have "(2::real) powi (e0 + 1) \<le> 2 powi (e0 + int (Suc n))"
    by (intro power_int_increasing) simp_all
  with Suc.prems have t: "2 powi (e0 + 1) \<le> y" by linarith
  have "2 powi (e0 + 1 + int n) \<le> y" using Suc.prems by (simp add: ac_simps)
  from Suc.IH [OF this] t show ?case by simp
qed

lemma exponent_from_bounds:
  "e0 \<le> exponent_from e0 n y
   \<and> (exponent_from e0 n y = e0 \<or> 2 powi (exponent_from e0 n y) \<le> y)"
proof (induction n arbitrary: e0)
  case 0
  then show ?case by simp
next
  case (Suc n)
  show ?case
  proof (cases "2 powi (e0 + 1) \<le> y")
    case True
    with Suc.IH [of "e0 + 1"] show ?thesis by auto
  next
    case False
    then show ?thesis by simp
  qed
qed


lemma double_round_between:
  assumes "0 \<le> x" and "x < 2 ^ 53"
  shows "of_int \<lfloor>x\<rfloor> \<le> double_round x \<and> double_round x \<le> of_int \<lceil>x\<rceil>"
proof (cases "x = 0")
  case True
  then show ?thesis by (simp add: double_round_def)
next
  case False
  with assms(1) have pos: "0 < x" by simp
  define e where "e = exponent_from (- 1022) 2046 \<bar>x\<bar>"
  have e52: "e \<le> 52"
  proof (rule ccontr)
    assume "\<not> e \<le> 52"
    then have big: "53 \<le> e" by simp
    then have "e \<noteq> - 1022" by simp
    with exponent_from_bounds [of "- 1022" 2046 "\<bar>x\<bar>"] have "2 powi e \<le> \<bar>x\<bar>"
      by (simp add: e_def)
    moreover have "(2::real) powi 53 \<le> 2 powi e"
      using big by (intro power_int_increasing) simp_all
    ultimately have "(2::real) ^ 53 \<le> x" using pos by simp
    with assms(2) show False by simp
  qed
  define k where "k = nat (52 - e)"
  define q :: real where "q = 2 powi (e - 52)"
  have q: "q = 1 / 2 ^ k"
    using e52 by (simp add: q_def k_def power_int_def inverse_eq_divide power_divide)
  have qpos: "0 < q" by (simp add: q)
  have dr: "double_round x = of_int (rint (x / q)) * q"
    using False by (simp add: double_round_def Let_def e_def q_def)
  have scale: "of_int m / q = of_int (m * 2 ^ k)" for m
    by (simp add: q)
  have "of_int \<lfloor>x\<rfloor> \<le> x" by simp
  then have "of_int \<lfloor>x\<rfloor> / q \<le> x / q"
    using qpos by (simp add: divide_right_mono)
  then have "of_int (\<lfloor>x\<rfloor> * 2 ^ k) \<le> x / q" by (simp only: scale)
  then have "\<lfloor>x\<rfloor> * 2 ^ k \<le> rint (x / q)" by (rule rint_ge)
  then have "(of_int (\<lfloor>x\<rfloor> * 2 ^ k) :: real) \<le> of_int (rint (x / q))" by (simp only: of_int_le_iff)
  then have "of_int \<lfloor>x\<rfloor> / q \<le> of_int (rint (x / q))" by (simp only: scale)
  then have lo: "of_int \<lfloor>x\<rfloor> \<le> of_int (rint (x / q)) * q"
    using qpos by (simp add: pos_divide_le_eq)
  have "x \<le> of_int \<lceil>x\<rceil>" by simp
  then have "x / q \<le> of_int \<lceil>x\<rceil> / q"
    using qpos by (simp add: divide_right_mono)
  then have "x / q \<le> of_int (\<lceil>x\<rceil> * 2 ^ k)" by (simp only: scale)
  then have "rint (x / q) \<le> \<lceil>x\<rceil> * 2 ^ k" by (rule rint_le)
  then have "(of_int (rint (x / q)) :: real) \<le> of_int (\<lceil>x\<rceil> * 2 ^ k)" by (simp only: of_int_le_iff)
  then have "of_int (rint (x / q)) \<le> of_int \<lceil>x\<rceil> / q" by (simp only: scale)
  then have hi: "of_int (rint (x / q)) * q \<le> of_int \<lceil>x\<rceil>"
    using qpos by (simp add: pos_le_divide_eq)
  from lo hi show ?thesis by (simp only: dr)
qed

lemma double_round_of_int:
  assumes "0 \<le> n" and "n < 2 ^ 53"
  shows "double_round (of_int n) = of_int n"
proof -
  have "of_int \<lfloor>of_int n :: real\<rfloor> \<le> double_round (of_int n)
        \<and> double_round (of_int n) \<le> of_int \<lceil>of_int n :: real\<rceil>"
    using assms by (intro double_round_between) simp_all
  then show ?thesis by simp
qed

lemma to_double_small:
  assumes "0 \<le> x" and "x < 2 ^ 53"
  shows "to_double x = Finite (double_round x)"
proof -
  from double_round_between [OF assms]
  have lo: "of_int \<lfloor>x\<rfloor> \<le> double_round x" and hi: "double_round x \<le> of_int \<lceil>x\<rceil>"
    by simp_all
  have "0 \<le> \<lfloor>x\<rfloor>" using assms(1) by simp
  then have "(0::real) \<le> of_int \<lfloor>x\<rfloor>" by simp
  with lo have nonneg: "0 \<le> double_round x" by linarith
  have "\<lceil>x\<rceil> \<le> 2 ^ 53" using assms(2) by (simp add: ceiling_le_iff)
  then have "(of_int \<lceil>x\<rceil> :: real) \<le> 2 ^ 53"
    by (metis of_int_le_iff of_int_numeral of_int_power)
  with hi have "double_round x \<le> 2 ^ 53" by linarith
  moreover have "(2::real) ^ 53 < 2 ^ 1024" by simp
  ultimately have "double_round x < 2 ^ 1024" by linarith
  with nonneg show ?thesis by (simp add: to_double_def Let_def)
qed

lemma float_of_int_exact:
  assumes "0 \<le> n" and "n < 2 ^ 53"
  shows "float_of_int n = Inr (Finite (of_int n))"
proof -
  have "to_double (of_int n) = Finite (double_round (of_int n))"
    using assms by (intro to_double_small) simp_all
  then show ?thesis
    by (simp add: float_of_int_def double_round_of_int [OF assms])
qed







lemma float_of_int_4: "float_of_int 4 = Inr (Finite 4)"
  using float_of_int_exact [of 4] by simp

section \<open>Properties of the image configuration\<close>











text \<open>
  The exceptions of \<open>int(s * pad_scale)\<close>: a NaN, an infinity and a product that
  overflows end the construction before \<open>fftfreqs\<close> is called.
\<close>

lemma post_init_nan:
  "ImageConfig_post_init ff (4, 4) ps (PyFloat NaN) rest = Inl ValueError"
  by (simp add: ImageConfig_post_init_def py_mul_def float_of_int_4 py_int_def)

lemma post_init_inf:
  "ImageConfig_post_init ff (4, 4) ps (PyFloat PosInf) rest = Inl OverflowError"
  by (simp add: ImageConfig_post_init_def py_mul_def float_of_int_4 py_int_def)

lemma to_double_overflow: "to_double (4 * 2 ^ 1023) = PosInf"
proof -
  have "(2::real) powi (- 1022 + int 2046) \<le> \<bar>4 * 2 ^ 1023\<bar>" by simp
  then have "exponent_from (- 1022) 2046 \<bar>4 * 2 ^ 1023\<bar> = - 1022 + int 2046"
    by (rule exponent_from_cap)
  then have e: "exponent_from (- 1022) 2046 \<bar>4 * 2 ^ 1023\<bar> = 1024" by simp
  have "double_round (4 * 2 ^ 1023)
          = of_int (rint ((4 * 2 ^ 1023) / 2 powi (1024 - 52))) * 2 powi (1024 - 52)"
    unfolding double_round_def Let_def e by simp
  also have "(4 * 2 ^ 1023 :: real) / 2 powi (1024 - 52) = of_int (2 ^ 53)"
    by simp
  also have "rint (of_int (2 ^ 53)) = 2 ^ 53" by (rule rint_of_int)
  finally have "double_round (4 * 2 ^ 1023) = 2 ^ 1025" by simp
  then show ?thesis by (simp add: to_double_def)
qed

lemma py_mul_overflow: "py_mul 4 (PyFloat (Finite (2 ^ 1023))) = Inr (PyFloat PosInf)"
  by (simp only: py_mul_def pynum.case float_of_int_4 sum.case float_mul.simps
      of_int_numeral to_double_overflow)

lemma post_init_overflow:
  "ImageConfig_post_init ff (4, 4) ps (PyFloat (Finite (2 ^ 1023))) rest = Inl OverflowError"
  by (simp only: ImageConfig_post_init_def fst_conv py_mul_overflow sum.case py_int_def
      pynum.case pyfloat.case)

text \<open>
  C5: whatever the positional and keyword arguments, \<open>FourierSliceScattering.scatter\<close>
  ends in \<open>NotImplementedError\<close>; no projection is returned and, the method being a
  function of its arguments alone, nothing is changed.
\<close>

theorem FourierSliceScattering_scatter_not_implemented:
  "FourierSliceScattering_scatter self args kwargs = Inl NotImplementedError"
  by (simp add: FourierSliceScattering_scatter_def)

section \<open>Properties of the projections\<close>

text \<open>
  C10: \<open>project_with_nufft\<close> and \<open>project_with_gaussians\<close> read the first two
  components of every coordinate and of the box size only. Two calls whose coordinates
  and box sizes agree on these components return the same result, whatever the utility
  routines compute.
\<close>

theorem projection_ignores_third_components:
  assumes "map first_two cs = map first_two cs'" and "first_two box = first_two box'"
  shows "project_with_nufft bound_u nufft_u density cs box shp tol =
           project_with_nufft bound_u nufft_u density cs' box' shp tol
       \<and> project_with_gaussians bound_u integrate_gaussians_u fft_u density cs box shp ps sc =
           project_with_gaussians bound_u integrate_gaussians_u fft_u density cs' box' shp ps sc"
  unfolding project_with_nufft_def project_with_gaussians_def assms by simp

theorem projection_ignores_third_components_witness:
  "map first_two [(1, 2, 3)] = map first_two [(1, 2, 7)]
   \<and> first_two (4, 4, 4) = first_two (4, 4, 9)
   \<and> project_with_nufft (bound (\<lambda>c b. \<bar>fst c\<bar> \<le> fst b / 2 \<and> \<bar>snd c\<bar> \<le> snd b / 2))
        (nufft (\<lambda>c b s t k. 1)) [5] [(1, 2, 3)] (4, 4, 4) (2, 2) (1 / 1000000)
     = project_with_nufft (bound (\<lambda>c b. \<bar>fst c\<bar> \<le> fst b / 2 \<and> \<bar>snd c\<bar> \<le> snd b / 2))
        (nufft (\<lambda>c b s t k. 1)) [5] [(1, 2, 7)] (4, 4, 9) (2, 2) (1 / 1000000)"
proof -
  have a: "map first_two [(1, 2, 3)] = map first_two [(1, 2, 7)]"
    and b: "first_two (4, 4, 4) = first_two (4, 4, 9)"
    by (simp_all add: first_two_def)
  from projection_ignores_third_components [OF a b] a b show ?thesis by blast
qed

section \<open>Binning refines its specification\<close>

lemma map2_same: "map2 f (map g xs) (map h xs) = map (\<lambda>x. f (g x) (h x)) xs"
  by (induction xs) simp_all

lemma wrap_id:
  assumes "0 < w" and "int_min w \<le> i" and "i \<le> int_max w"
  shows "wrap w i = i"
proof -
  obtain v where w: "w = Suc v" using assms(1) by (cases w) simp_all
  have lo: "0 \<le> i + 2 ^ v" and hi: "i + 2 ^ v < 2 * 2 ^ v"
    using assms(2,3) by (simp_all add: int_min_def int_max_def w)
  then have "(i + 2 ^ v) mod (2 * 2 ^ v) = i + 2 ^ v" by simp
  then show ?thesis by (simp add: wrap_def w)
qed

lemma astype_int_id: "int_min w \<le> i \<Longrightarrow> i \<le> int_max w \<Longrightarrow> astype_int w i = i"
  by (simp add: astype_int_def)

lemma int_range_nonneg: "0 \<le> int_max w \<and> int_min w \<le> 0"
  by (simp add: int_max_def int_min_def)

lemma clip_range: "0 < n \<Longrightarrow> 0 \<le> clip x 0 (n - 1) \<and> clip x 0 (n - 1) < n"
  by (auto simp: clip_def)

lemma flat_coords_eq:
  "ravel_multi_index w
     (map (\<lambda>(x, y, z). wrap w (x + N1 div 2))
        (map (\<lambda>(x, y, z). (astype_int w (rint x), astype_int w (rint y), astype_int w (rint z))) cs),
      map (\<lambda>(x, y, z). wrap w (y + N2 div 2))
        (map (\<lambda>(x, y, z). (astype_int w (rint x), astype_int w (rint y), astype_int w (rint z))) cs))
     (N1, N2)
   = map (\<lambda>c. wrap w (wrap w (clip (wrap w (astype_int w (rint (fst c)) + N1 div 2)) 0 (N1 - 1) * N2)
                          + clip (wrap w (astype_int w (rint (fst (snd c))) + N2 div 2)) 0 (N2 - 1))) cs"
  by (induction cs) (auto simp: ravel_multi_index_def)

lemma binning_flat_range:
  assumes "0 < N1" "0 < N2"
  shows "0 \<le> fst (binning_spec_pixel (N1, N2) c) * N2 + snd (binning_spec_pixel (N1, N2) c)
       \<and> fst (binning_spec_pixel (N1, N2) c) * N2 + snd (binning_spec_pixel (N1, N2) c) < N1 * N2
       \<and> 0 \<le> fst (binning_spec_pixel (N1, N2) c) * N2
       \<and> fst (binning_spec_pixel (N1, N2) c) * N2 < N1 * N2"
proof -
  obtain cx cy where p: "binning_spec_pixel (N1, N2) c = (cx, cy)"
    by (cases "binning_spec_pixel (N1, N2) c")
  have cx: "0 \<le> cx" "cx \<le> N1 - 1" and cy: "0 \<le> cy" "cy < N2"
    using p clip_range [OF assms(1)] clip_range [OF assms(2)]
    by (auto simp: binning_spec_pixel_def)
  have lo: "0 \<le> cx * N2" using cx assms(2) by simp
  have "cx * N2 \<le> (N1 - 1) * N2"
    using cx(2) assms(2) by (simp add: mult_right_mono)
  then have "cx * N2 + cy < (N1 - 1) * N2 + N2" using cy by linarith
  also have "\<dots> = N1 * N2" by (simp add: algebra_simps)
  finally have hi: "cx * N2 + cy < N1 * N2" .
  from lo cy have lo': "0 \<le> cx * N2 + cy" by linarith
  from hi cy have hi': "cx * N2 < N1 * N2" by linarith
  from lo lo' hi hi' show ?thesis by (simp only: p fst_conv snd_conv)
qed

lemma flat_in_range:
  assumes w: "0 < w" and n: "0 < N1" "0 < N2" and fits: "N1 * N2 \<le> int_max w"
    and c: "in_int_range w (N1, N2) c"
  shows "wrap w (wrap w (clip (wrap w (astype_int w (rint (fst c)) + N1 div 2)) 0 (N1 - 1) * N2)
                          + clip (wrap w (astype_int w (rint (fst (snd c))) + N2 div 2)) 0 (N2 - 1))
       = fst (binning_spec_pixel (N1, N2) c) * N2 + snd (binning_spec_pixel (N1, N2) c)"
proof -
  have h1: "0 \<le> N1 div 2" and h2: "0 \<le> N2 div 2" using n by simp_all
  have x: "int_min w \<le> rint (fst c)" "rint (fst c) + N1 div 2 \<le> int_max w"
    and y: "int_min w \<le> rint (fst (snd c))" "rint (fst (snd c)) + N2 div 2 \<le> int_max w"
    using c by (simp_all add: in_int_range_def)
  have ax: "astype_int w (rint (fst c)) = rint (fst c)"
    using x h1 by (intro astype_int_id) linarith+
  have ay: "astype_int w (rint (fst (snd c))) = rint (fst (snd c))"
    using y h2 by (intro astype_int_id) linarith+
  have wx: "wrap w (rint (fst c) + N1 div 2) = rint (fst c) + N1 div 2"
    using x h1 by (intro wrap_id [OF w]) linarith+
  have wy: "wrap w (rint (fst (snd c)) + N2 div 2) = rint (fst (snd c)) + N2 div 2"
    using y h2 by (intro wrap_id [OF w]) linarith+
  let ?cx = "fst (binning_spec_pixel (N1, N2) c)" and ?cy = "snd (binning_spec_pixel (N1, N2) c)"
  have px: "clip (rint (fst c) + N1 div 2) 0 (N1 - 1) = ?cx"
    and py: "clip (rint (fst (snd c)) + N2 div 2) 0 (N2 - 1) = ?cy"
    by (simp_all add: binning_spec_pixel_def)
  from binning_flat_range [OF n, of c] fits int_range_nonneg [of w]
  have r1: "int_min w \<le> ?cx * N2" "?cx * N2 \<le> int_max w"
    and r2: "int_min w \<le> ?cx * N2 + ?cy" "?cx * N2 + ?cy \<le> int_max w"
    by linarith+
  have w1: "wrap w (?cx * N2) = ?cx * N2" by (rule wrap_id [OF w r1])
  have w2: "wrap w (?cx * N2 + ?cy) = ?cx * N2 + ?cy" by (rule wrap_id [OF w r2])
  show ?thesis by (simp only: ax ay wx wy px py w1 w2)
qed

lemma length_bincount_add: "length (bincount_add fadd acc iw) = length acc"
  by (simp add: bincount_add_def Let_def)

lemma length_foldl_bincount_add: "length (foldl (bincount_add fadd) acc xs) = length acc"
  by (induction xs arbitrary: acc) (simp_all add: length_bincount_add)

lemma bincount_add_nth:
  "k < length acc \<Longrightarrow>
     bincount_add fadd acc iw ! k
       = (if max (fst iw) 0 = int k then fadd (acc ! k) (snd iw) else acc ! k)"
  by (auto simp: bincount_add_def Let_def nth_list_update)

lemma foldl_bincount_add_nth:
  "k < length acc \<Longrightarrow>
     foldl (bincount_add fadd) acc xs ! k
       = foldl fadd (acc ! k) (map snd (filter (\<lambda>iw. max (fst iw) 0 = int k) xs))"
proof (induction xs arbitrary: acc)
  case Nil
  then show ?case by simp
next
  case (Cons iw xs)
  have "k < length (bincount_add fadd acc iw)"
    using Cons.prems by (simp add: length_bincount_add)
  from Cons.IH [OF this] show ?case
    using Cons.prems by (simp add: bincount_add_nth)
qed

lemma flat_index_unique:
  fixes cx cy N2 :: int
  assumes "0 \<le> cy" "cy < N2" "b < nat N2"
  shows "cx * N2 + cy = int (a * nat N2 + b) \<longleftrightarrow> cx = int a \<and> cy = int b"
proof
  assume eq: "cx * N2 + cy = int (a * nat N2 + b)"
  have n2: "0 < N2" using assms by simp
  have rhs: "int (a * nat N2 + b) = int a * N2 + int b" using n2 by simp
  have b: "0 \<le> int b" "int b < N2" using assms by simp_all
  have "cx = (cx * N2 + cy) div N2" using assms n2 by simp
  also have "\<dots> = (int a * N2 + int b) div N2" by (simp only: eq rhs)
  also have "\<dots> = int a" using b n2 by simp
  finally have cx: "cx = int a" .
  from eq rhs have "cx * N2 + cy = int a * N2 + int b" by (simp only:)
  with cx show "cx = int a \<and> cy = int b" by simp
next
  assume "cx = int a \<and> cy = int b"
  then show "cx * N2 + cy = int (a * nat N2 + b)" using assms by simp
qed

lemma binning_flat_pixel:
  assumes "0 < N1" "0 < N2" "b < nat N2"
  shows "max (fst (binning_spec_pixel (N1, N2) c) * N2
                + snd (binning_spec_pixel (N1, N2) c)) 0 = int (a * nat N2 + b)
             \<longleftrightarrow> binning_spec_pixel (N1, N2) c = (int a, int b)"
proof -
  obtain cx cy where p: "binning_spec_pixel (N1, N2) c = (cx, cy)"
    by (cases "binning_spec_pixel (N1, N2) c")
  have cx: "0 \<le> cx" "cx < N1" and cy: "0 \<le> cy" "cy < N2"
    using p clip_range [OF assms(1)] clip_range [OF assms(2)]
    by (auto simp: binning_spec_pixel_def)
  have "0 \<le> cx * N2 + cy" using cx cy assms(2) by simp
  then have m: "max (cx * N2 + cy) 0 = cx * N2 + cy" by simp
  have "max (cx * N2 + cy) 0 = int (a * nat N2 + b) \<longleftrightarrow> cx = int a \<and> cy = int b"
    unfolding m by (rule flat_index_unique [OF cy assms(3)])
  then show ?thesis by (simp only: p fst_conv snd_conv prod.inject)
qed

text \<open>
  One point with the first coordinate \<open>3 * 10 ^ 9\<close> on a 2 by 2 target, with 32-bit
  integers: the conversion saturates, the shift wraps around to the least integer and
  the clipping moves the point to row 0.
\<close>

lemma guard_2_2:
  "fits 32 (2 div 2) \<and> fits 32 (2 div 2) \<and> fits 32 (2 - 1) \<and> fits 32 (2 - 1) \<and> fits 32 2"
  by (simp add: fits_def int_min_def int_max_def)

lemma cex_flat:
  "ravel_multi_index 32
     (map (\<lambda>(x, y, z). wrap 32 (x + 2 div 2))
        (map (\<lambda>(x, y, z). (astype_int 32 (rint x), astype_int 32 (rint y), astype_int 32 (rint z)))
           [(3000000000, 0, 0)]),
      map (\<lambda>(x, y, z). wrap 32 (y + 2 div 2))
        (map (\<lambda>(x, y, z). (astype_int 32 (rint x), astype_int 32 (rint y), astype_int 32 (rint z)))
           [(3000000000, 0, 0)]))
     (2, 2) = [1]"
  by (simp add: ravel_multi_index_def clip_def rint_def Let_def wrap_def astype_int_def
      int_min_def int_max_def)

lemma cex_bincount: "bincount (+) 0 [0] [1] [1::real] (2 * 2) = Inr [0, 1, 0, 0]"
  by (simp add: bincount_def bincount_add_def Let_def eval_nat_numeral)

lemma cex_reshape: "reshape [0, 1, 0, 0::real] (2, 2) = Inr [[0, 1], [0, 0]]"
  by (simp add: reshape_def eval_nat_numeral)

text \<open>
  C7, as the specification states it: every point goes to the pixel given by rounding,
  shifting and clipping its first two coordinates. The point above goes to the pixel
  (1, 1) by that rule, and \<open>project_with_binning\<close> adds its density to the pixel
  (0, 1).
\<close>

theorem project_with_binning_overflow_counterexample:
  "project_with_binning 32 (+) 0 [0] [1::real] [(3000000000, 0, 0)] (2, 2)
     = Inr [[0, 1], [0, 0]]
   \<and> binning_spec_pixel (2, 2) (3000000000, 0, 0) = (1, 1)
   \<and> binning_spec (+) 0 [0] [1::real] [(3000000000, 0, 0)] (2, 2) (1, 1) = 1"
proof -
  have "project_with_binning 32 (+) 0 [0] [1::real] [(3000000000, 0, 0)] (2, 2)
     = Inr [[0, 1], [0, 0]]"
    by (simp only: project_with_binning_def Let_def fst_conv snd_conv guard_2_2 simp_thms
        if_False cex_flat cex_bincount sum.case cex_reshape)
  moreover have p: "binning_spec_pixel (2, 2) (3000000000, 0, 0) = (1, 1)"
    by (simp add: binning_spec_pixel_def clip_def rint_def Let_def)
  moreover have "binning_spec (+) 0 [0] [1::real] [(3000000000, 0, 0)] (2, 2) (1, 1) = 1"
    by (simp add: binning_spec_def p)
  ultimately show ?thesis by (intro conjI)
qed

text \<open>
  C7, amended: for integers of a width \<open>w\<close> that holds \<open>N1 * N2\<close>, a target of
  positive dimensions, a density as long as the coordinate array and coordinates that
  are in range, \<open>project_with_binning\<close> returns an \<open>N1\<close> by \<open>N2\<close> image whose
  pixel \<open>(a, b)\<close> is the sum, added up from zero in the order the additions are
  applied, of the densities of the points that the rounding (half to even), the shift
  by \<open>N1 // 2\<close> and \<open>N2 // 2\<close> and the clipping send to \<open>(a, b)\<close>. Every
  point is sent to a pixel of the image: none is dropped.
\<close>

theorem project_with_binning_in_range:
  assumes w: "0 < w" and n1: "0 < N1" and n2: "0 < N2" and fits: "N1 * N2 \<le> int_max w"
    and len: "length density = length cs"
    and rng: "\<forall>c \<in> set cs. in_int_range w (N1, N2) c"
    and sched: "distinct sched" "set sched = {..<length cs}"
  shows "\<exists>P. project_with_binning w fadd fzero sched density cs (N1, N2) = Inr P
     \<and> length P = nat N1
     \<and> (\<forall>a<nat N1. length (P ! a) = nat N2
          \<and> (\<forall>b<nat N2. P ! a ! b
                = binning_spec fadd fzero sched density cs (N1, N2) (int a, int b)))
     \<and> (\<forall>j<length cs. \<exists>a<nat N1. \<exists>b<nat N2.
            binning_spec_pixel (N1, N2) (cs ! j) = (int a, int b))"
proof -
  let ?f = "\<lambda>c. fst (binning_spec_pixel (N1, N2) c) * N2 + snd (binning_spec_pixel (N1, N2) c)"
  let ?F = "\<lambda>c. wrap w (wrap w (clip (wrap w (astype_int w (rint (fst c)) + N1 div 2)) 0 (N1 - 1) * N2)
                          + clip (wrap w (astype_int w (rint (fst (snd c))) + N2 div 2)) 0 (N2 - 1))"
  let ?g = "\<lambda>j. (?f (cs ! j), density ! j)"
  define m1 where "m1 = nat N1"
  define m2 where "m2 = nat N2"
  define counts where
    "counts = foldl (bincount_add fadd) (replicate (nat (N1 * N2)) fzero) (map ?g sched)"
  define P where "P = map (\<lambda>r. take m2 (drop (r * m2) counts)) [0..<m1]"
  have pos: "0 \<le> N1 * N2" using n1 n2 by simp
  have nn: "nat (N1 * N2) = m1 * m2"
    using n1 n2 by (simp add: m1_def m2_def nat_mult_distrib)
  have lenc: "length counts = m1 * m2"
    by (simp add: counts_def length_foldl_bincount_add nn)
  have ilen: "int (length counts) = N1 * N2"
    using pos by (simp add: counts_def length_foldl_bincount_add)
  have upd: "map (\<lambda>j. (map ?F cs ! j, density ! j)) sched = map ?g sched"
  proof (intro map_cong refl)
    fix j assume "j \<in> set sched"
    then have j: "j < length cs" using sched(2) by simp
    then have "cs ! j \<in> set cs" by simp
    with rng have "in_int_range w (N1, N2) (cs ! j)" by blast
    from flat_in_range [OF w n1 n2 fits this]
    have "?F (cs ! j) = ?f (cs ! j)" .
    with j show "(map ?F cs ! j, density ! j) = ?g j" by simp
  qed
  have bc: "bincount fadd fzero sched (map ?F cs) density (N1 * N2) = Inr counts"
    using len pos by (simp only: bincount_def counts_def upd length_map) simp
  have rs: "reshape counts (N1, N2) = Inr P"
    using n1 n2 ilen by (simp add: reshape_def P_def m1_def m2_def)
  have guard: "fits w (N1 div 2) \<and> fits w (N2 div 2) \<and> fits w (N1 - 1) \<and> fits w (N2 - 1)
      \<and> fits w N2"
  proof -
    have "N1 * 1 \<le> N1 * N2" using n1 n2 by (intro mult_left_mono) simp_all
    then have a: "N1 \<le> int_max w" using fits by simp
    have "1 * N2 \<le> N1 * N2" using n1 n2 by (intro mult_right_mono) simp_all
    then have b: "N2 \<le> int_max w" using fits by simp
    have "N1 div 2 \<le> N1" and "N2 div 2 \<le> N2" and "0 \<le> N1 div 2" and "0 \<le> N2 div 2"
      using n1 n2 by simp_all
    with a b n1 n2 int_range_nonneg [of w] show ?thesis
      unfolding fits_def by linarith
  qed
  have run: "project_with_binning w fadd fzero sched density cs (N1, N2) = Inr P"
    by (simp only: project_with_binning_def Let_def fst_conv snd_conv guard simp_thms
        if_False flat_coords_eq bc sum.case rs)
  have cell: "length (P ! a) = nat N2
                \<and> P ! a ! b = binning_spec fadd fzero sched density cs (N1, N2) (int a, int b)"
    if a': "a < nat N1" and b': "b < nat N2" for a b
  proof -
    have a: "a < m1" and b: "b < m2" using a' b' by (simp_all add: m1_def m2_def)
    have "Suc a * m2 \<le> m1 * m2" using a by (intro mult_le_mono1) simp
    then have k: "a * m2 + b < length counts" and r: "a * m2 + m2 \<le> length counts"
      using b lenc by simp_all
    have row: "P ! a = take m2 (drop (a * m2) counts)"
      using a by (simp add: P_def)
    have l: "length (P ! a) = m2" using r by (simp add: row)
    have kr: "a * m2 + b < length (replicate (nat (N1 * N2)) fzero)"
      using k lenc nn by simp
    have flt: "filter (\<lambda>iw. max (fst iw) 0 = int (a * m2 + b)) (map ?g sched)
         = map ?g (filter (\<lambda>j. binning_spec_pixel (N1, N2) (cs ! j) = (int a, int b)) sched)"
      unfolding filter_map o_def fst_conv m2_def
      by (simp only: binning_flat_pixel [OF n1 n2 b'])
    have "P ! a ! b = counts ! (a * m2 + b)"
      using b r by (simp add: row)
    also have "\<dots> = foldl fadd (replicate (nat (N1 * N2)) fzero ! (a * m2 + b))
         (map snd (filter (\<lambda>iw. max (fst iw) 0 = int (a * m2 + b)) (map ?g sched)))"
      unfolding counts_def by (rule foldl_bincount_add_nth [OF kr])
    also have "replicate (nat (N1 * N2)) fzero ! (a * m2 + b) = fzero"
      using kr by simp
    also have "map snd (filter (\<lambda>iw. max (fst iw) 0 = int (a * m2 + b)) (map ?g sched))
         = map (\<lambda>j. density ! j)
             (filter (\<lambda>j. binning_spec_pixel (N1, N2) (cs ! j) = (int a, int b)) sched)"
      by (simp only: flt map_map o_def snd_conv)
    finally have "P ! a ! b = binning_spec fadd fzero sched density cs (N1, N2) (int a, int b)"
      by (simp only: binning_spec_def)
    with l show ?thesis by (simp only: m2_def)
  qed
  have rows: "\<forall>a<nat N1. length (P ! a) = nat N2
          \<and> (\<forall>b<nat N2. P ! a ! b
                = binning_spec fadd fzero sched density cs (N1, N2) (int a, int b))"
  proof (intro allI impI conjI)
    fix a assume a: "a < nat N1"
    have "0 < nat N2" using n2 by simp
    from cell [OF a this] show "length (P ! a) = nat N2" by (rule conjunct1)
    fix b assume b: "b < nat N2"
    from cell [OF a b]
    show "P ! a ! b = binning_spec fadd fzero sched density cs (N1, N2) (int a, int b)"
      by (rule conjunct2)
  qed
  have inside: "\<forall>j<length cs. \<exists>a<nat N1. \<exists>b<nat N2.
            binning_spec_pixel (N1, N2) (cs ! j) = (int a, int b)"
  proof (intro allI impI)
    fix j assume "j < length cs"
    let ?cx = "fst (binning_spec_pixel (N1, N2) (cs ! j))"
    let ?cy = "snd (binning_spec_pixel (N1, N2) (cs ! j))"
    have cx: "0 \<le> ?cx" "?cx < N1" and cy: "0 \<le> ?cy" "?cy < N2"
      using clip_range [OF n1] clip_range [OF n2] by (simp_all add: binning_spec_pixel_def)
    then have "nat ?cx < nat N1" and "nat ?cy < nat N2"
      and "binning_spec_pixel (N1, N2) (cs ! j) = (int (nat ?cx), int (nat ?cy))"
      by (simp_all add: prod_eq_iff)
    then show "\<exists>a<nat N1. \<exists>b<nat N2. binning_spec_pixel (N1, N2) (cs ! j) = (int a, int b)"
      by blast
  qed
  have "length P = nat N1" by (simp add: P_def m1_def)
  with run rows inside show ?thesis
    by (intro exI [of _ P] conjI)
qed

text \<open>
  Three points on a 2 by 2 target: the origin, a point with two ties and a point far
  outside, which the clipping moves to the boundary. The additions are applied in the
  order 2, 0, 1.
\<close>

lemma ex_flat:
  "ravel_multi_index 32
     (map (\<lambda>(x, y, z). wrap 32 (x + 2 div 2))
        (map (\<lambda>(x, y, z). (astype_int 32 (rint x), astype_int 32 (rint y), astype_int 32 (rint z)))
           [(0, 0, 0), (1 / 2, - 1 / 2, 9), (10, - 10, 1)]),
      map (\<lambda>(x, y, z). wrap 32 (y + 2 div 2))
        (map (\<lambda>(x, y, z). (astype_int 32 (rint x), astype_int 32 (rint y), astype_int 32 (rint z)))
           [(0, 0, 0), (1 / 2, - 1 / 2, 9), (10, - 10, 1)]))
     (2, 2) = [3, 3, 2]"
  by (simp add: ravel_multi_index_def clip_def rint_def Let_def wrap_def astype_int_def
      int_min_def int_max_def)

lemma ex_bincount: "bincount (+) 0 [2, 0, 1] [3, 3, 2] [1, 2, 3::real] (2 * 2) = Inr [0, 0, 3, 3]"
  by (simp add: bincount_def bincount_add_def Let_def eval_nat_numeral)

lemma ex_reshape: "reshape [0, 0, 3, 3::real] (2, 2) = Inr [[0, 0], [3, 3]]"
  by (simp add: reshape_def eval_nat_numeral)

lemma binning_example:
  "project_with_binning 32 (+) 0 [2, 0, 1] [1, 2, 3::real]
      [(0, 0, 0), (1 / 2, - 1 / 2, 9), (10, - 10, 1)] (2, 2)
     = Inr [[0, 0], [3, 3]]"
  by (simp only: project_with_binning_def Let_def fst_conv snd_conv guard_2_2 simp_thms
      if_False ex_flat ex_bincount sum.case ex_reshape)

theorem project_with_binning_in_range_witness:
  "(0::nat) < 32 \<and> (0::int) < 2 \<and> (2::int) * 2 \<le> int_max 32
   \<and> length [1, 2, 3::real] = length [(0, 0, 0), (1 / 2, - 1 / 2, 9), (10, - 10, 1::real)]
   \<and> in_int_range 32 (2, 2) (0, 0, 0) \<and> in_int_range 32 (2, 2) (1 / 2, - 1 / 2, 9)
   \<and> in_int_range 32 (2, 2) (10, - 10, 1)
   \<and> distinct [2, 0, 1::nat]
   \<and> project_with_binning 32 (+) 0 [2, 0, 1] [1, 2, 3::real]
        [(0, 0, 0), (1 / 2, - 1 / 2, 9), (10, - 10, 1)] (2, 2)
       = Inr [[0, 0], [3, 3]]
   \<and> binning_spec (+) 0 [2, 0, 1] [1, 2, 3::real]
        [(0, 0, 0), (1 / 2, - 1 / 2, 9), (10, - 10, 1)] (2, 2) (1, 0) = 3
   \<and> binning_spec (+) 0 [2, 0, 1] [1, 2, 3::real]
        [(0, 0, 0), (1 / 2, - 1 / 2, 9), (10, - 10, 1)] (2, 2) (1, 1) = 3"
proof -
  let ?d = "[1, 2, 3::real]"
  let ?cs = "[(0, 0, 0), (1 / 2, - 1 / 2, 9), (10, - 10, 1::real)]"
  let ?s = "[2, 0, 1::nat]"
  have w: "(0::nat) < 32" and n: "(0::int) < 2" and l: "length ?d = length ?cs"
    and f: "(2::int) * 2 \<le> int_max 32"
    by (simp_all add: int_max_def)
  have r: "in_int_range 32 (2, 2) (0, 0, 0)" "in_int_range 32 (2, 2) (1 / 2, - 1 / 2, 9)"
    "in_int_range 32 (2, 2) (10, - 10, 1)"
    by (simp_all add: in_int_range_def int_min_def int_max_def rint_def Let_def)
  then have rng: "\<forall>c \<in> set ?cs. in_int_range 32 (2, 2) c" by simp
  have s: "distinct ?s" "set ?s = {..<length ?cs}" by auto
  from project_with_binning_in_range [OF w n n f l rng s, of "(+)" 0]
  obtain P where run: "project_with_binning 32 (+) 0 ?s ?d ?cs (2, 2) = Inr P"
    and cells: "\<forall>a<nat 2. length (P ! a) = nat 2
          \<and> (\<forall>b<nat 2. P ! a ! b = binning_spec (+) 0 ?s ?d ?cs (2, 2) (int a, int b))"
    by (elim exE conjE)
  from run have P: "P = [[0, 0], [3, 3]]" by (simp only: binning_example sum.inject)
  have "(1::nat) < nat 2" and "(0::nat) < nat 2" by simp_all
  with cells have "P ! 1 ! 0 = binning_spec (+) 0 ?s ?d ?cs (2, 2) (int 1, int 0)"
    and "P ! 1 ! 1 = binning_spec (+) 0 ?s ?d ?cs (2, 2) (int 1, int 1)"
    by blast+
  then have c: "binning_spec (+) 0 ?s ?d ?cs (2, 2) (1, 0) = 3"
    "binning_spec (+) 0 ?s ?d ?cs (2, 2) (1, 1) = 3"
    by (simp_all add: P)
  from w n f l r s(1) binning_example c show ?thesis by (intro conjI)
qed

section \<open>A point cloud outside the box\<close>

lemma sum_list_replicate_zero: "sum_list (replicate n (0::'a::monoid_add)) = 0"
  by (induction n) simp_all

lemma bound_all_outside:
  assumes "length density = length cs2" and "\<forall>c \<in> set cs2. \<not> in_box c box"
  shows "bound in_box density cs2 box = Inr (replicate (length cs2) 0)"
proof -
  have "map2 (\<lambda>d c. if in_box c box then d else 0) density cs2 = replicate (length cs2) 0"
    using assms by (induction density cs2 rule: list_induct2) simp_all
  with assms(1) show ?thesis by (simp add: bound_def)
qed

lemma weighted_sum_zero:
  "sum_list (map2 (\<lambda>d c. d * k c) (replicate (length cs2) (0::'a::semiring_0)) cs2) = 0"
  by (induction cs2) simp_all

lemma const_rows: "map (\<lambda>k1. map (\<lambda>k2. c) [0..<n2]) [0..<n1] = replicate n1 (replicate n2 c)"
  by (simp add: map_replicate_const)

lemma nufft_zero:
  "nufft kern (replicate (length cs2) 0) cs2 box shp tol
     = Inr (replicate (nat (fst shp)) (replicate (nat (snd shp)) 0))"
  by (simp add: nufft_def weighted_sum_zero const_rows)

lemma integrate_gaussians_zero:
  "integrate_gaussians pint (replicate (length cs2) 0) cs2 sc shp ps
     = Inr (replicate (nat (fst shp)) (replicate (nat (snd shp)) 0))"
  by (simp add: integrate_gaussians_def weighted_sum_zero const_rows)

lemma fft_zero:
  "fft tw (replicate n1 (replicate n2 0)) = Inr (replicate n1 (replicate n2 0))"
proof (cases n1)
  case 0
  then show ?thesis by (simp add: fft_def)
next
  case (Suc m)
  let ?img = "replicate n1 (replicate n2 (0::real))"
  have inner: "sum_list (map (\<lambda>b. of_real (?img ! a ! b) * tw (n1, n2) (a, b) k) [0..<n2]) = (0::complex)"
    if "a < n1" for a k
  proof -
    have "map (\<lambda>b. of_real (?img ! a ! b) * tw (n1, n2) (a, b) k) [0..<n2]
            = map (\<lambda>b. 0) [0..<n2]"
      using that by (intro map_cong) simp_all
    then show ?thesis by (simp add: map_replicate_const sum_list_replicate_zero)
  qed
  have outer: "sum_list (map (\<lambda>a. sum_list (map (\<lambda>b. of_real (?img ! a ! b) * tw (n1, n2) (a, b) k) [0..<n2])) [0..<n1]) = (0::complex)"
    for k
  proof -
    have "map (\<lambda>a. sum_list (map (\<lambda>b. of_real (?img ! a ! b) * tw (n1, n2) (a, b) k) [0..<n2])) [0..<n1]
            = map (\<lambda>a. 0) [0..<n1]"
    proof (intro map_cong refl)
      fix a assume "a \<in> set [0..<n1]"
      then have "a < n1" by simp
      then show "sum_list (map (\<lambda>b. of_real (?img ! a ! b) * tw (n1, n2) (a, b) k) [0..<n2]) = 0"
        by (rule inner)
    qed
    then show ?thesis by (simp add: map_replicate_const sum_list_replicate_zero)
  qed
  have n2: "(case ?img of [] \<Rightarrow> 0 | r # _ \<Rightarrow> length r) = n2"
    using Suc by simp
  show ?thesis
    unfolding fft_def Let_def n2 by (simp add: outer const_rows)
qed

text \<open>
  C6: when the density is as long as the coordinate array and the projected coordinate
  of every point lies outside the box, \<open>project_with_nufft\<close> and
  \<open>project_with_gaussians\<close> return the all-zero image of the target shape, and no
  error. The utility routines are those modelled from the specification, for every
  choice of their parameters.
\<close>

theorem outside_box_projects_to_zero:
  assumes "length density = length cs" and "length weights = length cs"
    and "\<forall>c \<in> set cs. \<not> in_box (first_two c) (first_two box)"
  shows "project_with_nufft (bound in_box) (nufft kern) density cs box shp tol
           = Inr (replicate (nat (fst shp)) (replicate (nat (snd shp)) 0))
       \<and> project_with_gaussians (bound in_box) (integrate_gaussians pint) (fft tw)
             weights cs box shp ps sc
           = Inr (replicate (nat (fst shp)) (replicate (nat (snd shp)) 0))"
proof -
  let ?cs2 = "map first_two cs"
  have out: "\<forall>c \<in> set ?cs2. \<not> in_box c (first_two box)"
    using assms(3) by simp
  have bd: "bound in_box density ?cs2 (first_two box) = Inr (replicate (length ?cs2) 0)"
    using assms(1) out by (intro bound_all_outside) simp_all
  have bw: "bound in_box weights ?cs2 (first_two box) = Inr (replicate (length ?cs2) 0)"
    using assms(2) out by (intro bound_all_outside) simp_all
  have a: "project_with_nufft (bound in_box) (nufft kern) density cs box shp tol
           = Inr (replicate (nat (fst shp)) (replicate (nat (snd shp)) 0))"
    by (simp only: project_with_nufft_def bd sum.case nufft_zero)
  have b: "project_with_gaussians (bound in_box) (integrate_gaussians pint) (fft tw)
             weights cs box shp ps sc
           = Inr (replicate (nat (fst shp)) (replicate (nat (snd shp)) 0))"
    by (simp only: project_with_gaussians_def bw sum.case integrate_gaussians_zero fft_zero)
  from a b show ?thesis by (rule conjI)
qed

theorem outside_box_projects_to_zero_witness:
  "length [5, 7::complex] = length [(3, 0, 0), (0, - 4, 1::real)]
   \<and> length [5, 7::real] = length [(3, 0, 0), (0, - 4, 1::real)]
   \<and> \<not> \<bar>fst (first_two (3, 0, 0))\<bar> \<le> fst (first_two (4, 4, 4)) / 2
   \<and> \<not> \<bar>snd (first_two (0, - 4, 1))\<bar> \<le> snd (first_two (4, 4, 4)) / 2
   \<and> project_with_nufft (bound (\<lambda>c b. \<bar>fst c\<bar> \<le> fst b / 2 \<and> \<bar>snd c\<bar> \<le> snd b / 2))
        (nufft (\<lambda>c b s t k. 1)) [5, 7] [(3, 0, 0), (0, - 4, 1)] (4, 4, 4) (2, 2) (1 / 1000000)
       = Inr [[0, 0], [0, 0]]
   \<and> project_with_gaussians (bound (\<lambda>c b. \<bar>fst c\<bar> \<le> fst b / 2 \<and> \<bar>snd c\<bar> \<le> snd b / 2))
        (integrate_gaussians (\<lambda>c s sh p k. 1)) (fft (\<lambda>n a k. 1))
        [5, 7] [(3, 0, 0), (0, - 4, 1)] (4, 4, 4) (2, 2) 1 (1 / 3)
       = Inr [[0, 0], [0, 0]]"
proof -
  let ?cs = "[(3, 0, 0), (0, - 4, 1::real)]"
  let ?inb = "\<lambda>(c::vec2) (b::vec2). \<bar>fst c\<bar> \<le> fst b / 2 \<and> \<bar>snd c\<bar> \<le> snd b / 2"
  have l1: "length [5, 7::complex] = length ?cs" and l2: "length [5, 7::real] = length ?cs"
    by simp_all
  have out: "\<forall>c \<in> set ?cs. \<not> ?inb (first_two c) (first_two (4, 4, 4))"
    by (simp add: first_two_def)
  have z: "replicate 2 (replicate 2 (0::complex)) = [[0, 0], [0, 0]]"
    by (simp add: eval_nat_numeral)
  from outside_box_projects_to_zero [where density = "[5, 7]" and cs = ?cs
      and weights = "[5, 7]" and in_box = ?inb and box = "(4, 4, 4)"
      and kern = "\<lambda>c b s t k. 1" and shp = "(2, 2)" and tol = "1 / 1000000"
      and pint = "\<lambda>c s sh p k. 1" and tw = "\<lambda>n a k. 1" and ps = 1 and sc = "1 / 3"]
    l1 l2 out
  have "project_with_nufft (bound ?inb) (nufft (\<lambda>c b s t k. 1)) [5, 7] ?cs (4, 4, 4) (2, 2)
          (1 / 1000000) = Inr [[0, 0], [0, 0]]
      \<and> project_with_gaussians (bound ?inb) (integrate_gaussians (\<lambda>c s sh p k. 1))
          (fft (\<lambda>n a k. 1)) [5, 7] ?cs (4, 4, 4) (2, 2) 1 (1 / 3) = Inr [[0, 0], [0, 0]]"
    by (simp add: z)
  with l1 l2 show ?thesis by (simp add: first_two_def)
qed

end
